theory Spec2Isabelle
  imports Complex_Main
begin

section \<open>Floating-point entries\<close>

text \<open>
  The entries of the program's arrays are 32-bit binary floating-point numbers
  (\<^verbatim>\<open>dtype=float32\<close>). A value is a finite number, one of the two infinities, or NaN.
  The two zeros of the format compare equal and are one value here. Every operation
  rounds its result to the format; the theorems ask nothing of the finite entries they
  are given, so they hold in particular for the representable ones.
\<close>

datatype f32 = Fin real | PInf | NInf | NaN

text \<open>
  Rounding to nearest, ties to even, with a significand of 24 bits: \<open>expo x\<close> is the
  binary exponent of \<open>x\<close>, held at \<open>-126\<close> in the subnormal range, the unit in the last
  place is \<open>2 powr (expo x - 23)\<close>, and a rounded magnitude of \<open>2 ^ 128\<close> or more
  overflows to an infinity.
\<close>

definition rne :: "real \<Rightarrow> int" where
  "rne r =
     (let f = \<lfloor>r\<rfloor>
      in if r - of_int f < 1 / 2 then f
         else if 1 / 2 < r - of_int f then f + 1
         else if even f then f else f + 1)"

definition expo :: "real \<Rightarrow> int" where
  "expo x = max \<lfloor>log 2 \<bar>x\<bar>\<rfloor> (- 126)"

definition rnd :: "real \<Rightarrow> f32" where
  "rnd x =
     (if x = 0 then Fin 0
      else let u = 2 powr (of_int (expo x) - 23);
               y = of_int (rne (x / u)) * u
           in if 2 ^ 128 \<le> \<bar>y\<bar> then (if 0 < x then PInf else NInf) else Fin y)"

text \<open>
  Addition, multiplication and hyperbolic tangent: the exact result rounded, with the
  rules of the format for infinities and NaN.
\<close>

fun fadd :: "f32 \<Rightarrow> f32 \<Rightarrow> f32" where
  "fadd NaN y = NaN"
| "fadd x NaN = NaN"
| "fadd (Fin a) (Fin b) = rnd (a + b)"
| "fadd (Fin a) PInf = PInf"
| "fadd (Fin a) NInf = NInf"
| "fadd PInf (Fin b) = PInf"
| "fadd NInf (Fin b) = NInf"
| "fadd PInf PInf = PInf"
| "fadd NInf NInf = NInf"
| "fadd PInf NInf = NaN"
| "fadd NInf PInf = NaN"

fun fmul :: "f32 \<Rightarrow> f32 \<Rightarrow> f32" where
  "fmul NaN y = NaN"
| "fmul x NaN = NaN"
| "fmul (Fin a) (Fin b) = rnd (a * b)"
| "fmul (Fin a) PInf = (if a = 0 then NaN else if 0 < a then PInf else NInf)"
| "fmul (Fin a) NInf = (if a = 0 then NaN else if 0 < a then NInf else PInf)"
| "fmul PInf (Fin b) = (if b = 0 then NaN else if 0 < b then PInf else NInf)"
| "fmul NInf (Fin b) = (if b = 0 then NaN else if 0 < b then NInf else PInf)"
| "fmul PInf PInf = PInf"
| "fmul PInf NInf = NInf"
| "fmul NInf PInf = NInf"
| "fmul NInf NInf = PInf"

fun ftanh :: "f32 \<Rightarrow> f32" where
  "ftanh NaN = NaN"
| "ftanh PInf = Fin 1"
| "ftanh NInf = Fin (- 1)"
| "ftanh (Fin a) = rnd (tanh a)"

fun is_fin :: "f32 \<Rightarrow> bool" where
  "is_fin (Fin a) = True"
| "is_fin PInf = False"
| "is_fin NInf = False"
| "is_fin NaN = False"

section \<open>The array library as the program uses it\<close>

text \<open>
  The recurrence of \<^verbatim>\<open>ch09_recurrent-neural-networks/5-rnn-scratch-2.ipynb\<close> calls three
  operations of the array library: \<^verbatim>\<open>jnp.matmul\<close>, the broadcasting \<^verbatim>\<open>+\<close> and
  \<^verbatim>\<open>jnp.tanh\<close>. Arrays of rank 0, 1 and 2 are modelled; a matrix carries its number of
  columns, so that the shapes (0, 5) and (0, 2) differ as they do in the library.
\<close>

datatype array = Scal f32 | Vec "f32 list" | Mat nat "f32 list list"

text \<open>
  Two failures can leave the forward computation: the shape error that the library
  raises from \<^verbatim>\<open>matmul\<close> or from a broadcasting \<^verbatim>\<open>+\<close>, and the exception of the
  unpacking statement \<^verbatim>\<open>state, = state\<close>.
\<close>

datatype error = ShapeMismatch | UnpackError

fun shape :: "array \<Rightarrow> nat list" where
  "shape (Scal a) = []"
| "shape (Vec xs) = [length xs]"
| "shape (Mat c rows) = [length rows, c]"

fun valid :: "array \<Rightarrow> bool" where
  "valid (Scal a) = True"
| "valid (Vec xs) = True"
| "valid (Mat c rows) = list_all (\<lambda>row. length row = c) rows"

fun ndim :: "array \<Rightarrow> nat" where
  "ndim (Scal a) = 0"
| "ndim (Vec xs) = 1"
| "ndim (Mat c rows) = 2"

text \<open>Rows and columns of an array once it is aligned to rank 2, as broadcasting does.\<close>

fun nrows :: "array \<Rightarrow> nat" where
  "nrows (Scal a) = 1"
| "nrows (Vec xs) = 1"
| "nrows (Mat c rows) = length rows"

fun ncols :: "array \<Rightarrow> nat" where
  "ncols (Scal a) = 1"
| "ncols (Vec xs) = length xs"
| "ncols (Mat c rows) = c"

fun entries :: "array \<Rightarrow> f32 list" where
  "entries (Scal a) = [a]"
| "entries (Vec xs) = xs"
| "entries (Mat c rows) = concat rows"

definition all_finite :: "array \<Rightarrow> bool" where
  "all_finite A = list_all is_fin (entries A)"

fun item :: "array \<Rightarrow> nat \<Rightarrow> nat \<Rightarrow> f32" where
  "item (Scal a) i j = a"
| "item (Vec xs) i j = xs ! j"
| "item (Mat c rows) i j = rows ! i ! j"

definition bitem :: "array \<Rightarrow> nat \<Rightarrow> nat \<Rightarrow> f32" where
  "bitem A i j = item A (if nrows A = 1 then 0 else i) (if ncols A = 1 then 0 else j)"

definition broadcast_dim :: "nat \<Rightarrow> nat \<Rightarrow> nat option" where
  "broadcast_dim a b =
     (if a = b then Some a else if a = 1 then Some b else if b = 1 then Some a else None)"

definition tab2 :: "nat \<Rightarrow> nat \<Rightarrow> (nat \<Rightarrow> nat \<Rightarrow> f32) \<Rightarrow> array" where
  "tab2 r c f = Mat c (map (\<lambda>i. map (f i) [0..<c]) [0..<r])"

fun build :: "nat \<Rightarrow> nat \<Rightarrow> nat \<Rightarrow> (nat \<Rightarrow> nat \<Rightarrow> f32) \<Rightarrow> array" where
  "build 0 r c f = Scal (f 0 0)"
| "build (Suc 0) r c f = Vec (map (f 0) [0..<c])"
| "build (Suc (Suc d)) r c f = tab2 r c f"

text \<open>
  The inner product of \<^verbatim>\<open>matmul\<close>: the products are accumulated from zero in index
  order, each product and each partial sum rounded.
\<close>

definition dot :: "nat \<Rightarrow> (nat \<Rightarrow> f32) \<Rightarrow> (nat \<Rightarrow> f32) \<Rightarrow> f32" where
  "dot n f g = foldl (\<lambda>acc k. fadd acc (fmul (f k) (g k))) (Fin 0) [0..<n]"

text \<open>
  \<^verbatim>\<open>jnp.matmul\<close>: the last axis of the left operand is contracted with the first axis
  of the right operand (its only axis when it is a vector); the two lengths must agree,
  and an operand of rank 0 is refused.
\<close>

fun matmul :: "array \<Rightarrow> array \<Rightarrow> error + array" where
  "matmul (Scal a) B = Inl ShapeMismatch"
| "matmul (Vec xs) (Scal b) = Inl ShapeMismatch"
| "matmul (Mat c rows) (Scal b) = Inl ShapeMismatch"
| "matmul (Vec xs) (Vec ys) =
     (if length xs = length ys then Inr (Scal (dot (length xs) (nth xs) (nth ys)))
      else Inl ShapeMismatch)"
| "matmul (Vec xs) (Mat c' rows') =
     (if length xs = length rows'
      then Inr (Vec (map (\<lambda>j. dot (length xs) (nth xs) (\<lambda>k. rows' ! k ! j)) [0..<c']))
      else Inl ShapeMismatch)"
| "matmul (Mat c rows) (Vec ys) =
     (if c = length ys
      then Inr (Vec (map (\<lambda>i. dot c (nth (rows ! i)) (nth ys)) [0..<length rows]))
      else Inl ShapeMismatch)"
| "matmul (Mat c rows) (Mat c' rows') =
     (if c = length rows'
      then Inr (tab2 (length rows) c' (\<lambda>i j. dot c (nth (rows ! i)) (\<lambda>k. rows' ! k ! j)))
      else Inl ShapeMismatch)"

text \<open>
  The broadcasting \<^verbatim>\<open>+\<close>: shapes are aligned at their last axis, a missing axis counts
  as length 1, and two lengths are compatible when they are equal or one of them is 1.
\<close>

definition add :: "array \<Rightarrow> array \<Rightarrow> error + array" where
  "add A B =
     (case (broadcast_dim (nrows A) (nrows B), broadcast_dim (ncols A) (ncols B)) of
        (Some r, Some c) \<Rightarrow>
          Inr (build (max (ndim A) (ndim B)) r c (\<lambda>i j. fadd (bitem A i j) (bitem B i j)))
      | _ \<Rightarrow> Inl ShapeMismatch)"

fun jnp_tanh :: "array \<Rightarrow> array" where
  "jnp_tanh (Scal a) = Scal (ftanh a)"
| "jnp_tanh (Vec xs) = Vec (map ftanh xs)"
| "jnp_tanh (Mat c rows) = Mat c (map (map ftanh) rows)"

definition zeros :: "nat \<Rightarrow> nat \<Rightarrow> array" where
  "zeros r c = Mat c (replicate r (replicate c (Fin 0)))"



section \<open>The class \<^verbatim>\<open>RNNScratch\<close>\<close>

record rnn_scratch =
  W_xh :: array
  W_hh :: array
  b_h :: array
  num_hiddens :: nat

text \<open>
  \<^verbatim>\<open>__init__\<close> draws the two weight matrices from the \<^verbatim>\<open>he_normal\<close> initialiser and sets
  the bias to zeros. The random draws belong to the framework; they are the parameters
  \<open>wxh\<close> and \<open>whh\<close> here.
\<close>

definition RNNScratch_init ::
  "nat \<Rightarrow> nat \<Rightarrow> (nat \<Rightarrow> nat \<Rightarrow> f32) \<Rightarrow> (nat \<Rightarrow> nat \<Rightarrow> f32) \<Rightarrow> rnn_scratch" where
  "RNNScratch_init n_inputs n_hiddens wxh whh =
     \<lparr> W_xh = tab2 n_inputs n_hiddens wxh,
       W_hh = tab2 n_hiddens n_hiddens whh,
       b_h = Vec (replicate n_hiddens (Fin 0)),
       num_hiddens = n_hiddens \<rparr>"

text \<open>
  The state that a call can see and change: the object \<^verbatim>\<open>self\<close>, and the list of array
  operations that have completed so far (the library calls of the forward computation,
  in the order Python evaluates them).
\<close>

datatype op = MatMul | Add | Tanh

record exec_state =
  self :: rnn_scratch
  trace :: "op list"

type_synonym 'a exec = "exec_state \<Rightarrow> exec_state \<times> (error + 'a)"

definition return_exec :: "'a \<Rightarrow> 'a exec" where
  "return_exec v \<sigma> = (\<sigma>, Inr v)"

definition bind_exec :: "'a exec \<Rightarrow> ('a \<Rightarrow> 'b exec) \<Rightarrow> 'b exec" where
  "bind_exec f g \<sigma> = (case f \<sigma> of (\<sigma>', Inl e) \<Rightarrow> (\<sigma>', Inl e) | (\<sigma>', Inr v) \<Rightarrow> g v \<sigma>')"

text \<open>A library call: an exception leaves the state alone, a result is logged.\<close>

definition lib :: "op \<Rightarrow> (rnn_scratch \<Rightarrow> error + 'a) \<Rightarrow> 'a exec" where
  "lib p f \<sigma> =
     (case f (self \<sigma>) of
        Inl e \<Rightarrow> (\<sigma>, Inl e)
      | Inr v \<Rightarrow> (\<sigma>\<lparr>trace := trace \<sigma> @ [p]\<rparr>, Inr v))"

text \<open>
  The body of the loop of \<^verbatim>\<open>__call__\<close>:
  \<^verbatim>\<open>state = jnp.tanh(jnp.matmul(X, self.W_xh) + (jnp.matmul(state, self.W_hh) if state is not None else 0) + self.b_h)\<close>
  The literal \<^verbatim>\<open>0\<close> joins the sum as the float zero.
\<close>

definition loop_body :: "array \<Rightarrow> array option \<Rightarrow> array exec" where
  "loop_body X state =
     bind_exec (lib MatMul (\<lambda>m. matmul X (W_xh m))) (\<lambda>xw.
     bind_exec (case state of
                  None \<Rightarrow> return_exec (Scal (Fin 0))
                | Some h \<Rightarrow> lib MatMul (\<lambda>m. matmul h (W_hh m))) (\<lambda>hw.
     bind_exec (lib Add (\<lambda>m. add xw hw)) (\<lambda>s.
     bind_exec (lib Add (\<lambda>m. add s (b_h m))) (\<lambda>s'.
     lib Tanh (\<lambda>m. Inr (jnp_tanh s'))))))"

text \<open>
  The argument \<^verbatim>\<open>state\<close> of \<^verbatim>\<open>__call__\<close> is \<^verbatim>\<open>None\<close>, a tuple of arrays or a bare array.
  \<open>unpack_state\<close> is the first statement of \<^verbatim>\<open>__call__\<close>,
  \<^verbatim>\<open>if state is not None: state, = state\<close>. The unpacking succeeds on an iterable that
  yields exactly one element; iterating an array runs over its first axis, and an array
  of rank 0 cannot be iterated.
\<close>

datatype state_arg = PyNone | PyTuple "array list" | PyArray array

fun unpack_state :: "state_arg \<Rightarrow> error + array option" where
  "unpack_state PyNone = Inr None"
| "unpack_state (PyTuple [h]) = Inr (Some h)"
| "unpack_state (PyTuple hs) = Inl UnpackError"
| "unpack_state (PyArray (Scal a)) = Inl UnpackError"
| "unpack_state (PyArray (Vec [a])) = Inr (Some (Scal a))"
| "unpack_state (PyArray (Vec xs)) = Inl UnpackError"
| "unpack_state (PyArray (Mat c [row])) = Inr (Some (Vec row))"
| "unpack_state (PyArray (Mat c rows)) = Inl UnpackError"

text \<open>\<^verbatim>\<open>len\<close> of the argument, where it has one.\<close>

fun py_len :: "state_arg \<Rightarrow> nat option" where
  "py_len PyNone = None"
| "py_len (PyTuple hs) = Some (length hs)"
| "py_len (PyArray (Scal a)) = None"
| "py_len (PyArray (Vec xs)) = Some (length xs)"
| "py_len (PyArray (Mat c rows)) = Some (length rows)"

text \<open>
  The loop \<^verbatim>\<open>for X in inputs: state = ...; outputs.append(state)\<close> followed by
  \<^verbatim>\<open>return outputs, state\<close>; an exception of the loop body leaves the loop with it.
  \<^verbatim>\<open>__call__\<close> unpacks the state, starts from \<^verbatim>\<open>outputs = []\<close> and runs the loop.
\<close>

fun call_loop ::
  "array list \<Rightarrow> array list \<Rightarrow> array option \<Rightarrow> (array list \<times> array option) exec" where
  "call_loop [] outputs state = return_exec (outputs, state)"
| "call_loop (X # inputs) outputs state =
     bind_exec (loop_body X state) (\<lambda>s. call_loop inputs (outputs @ [s]) (Some s))"

definition RNNScratch_call ::
  "array list \<Rightarrow> state_arg \<Rightarrow> (array list \<times> array option) exec" where
  "RNNScratch_call inputs st \<sigma> =
     (case unpack_state st of
        Inl e \<Rightarrow> (\<sigma>, Inl e)
      | Inr state \<Rightarrow> call_loop inputs [] state \<sigma>)"

text \<open>The two assertions of the notebook, as the conditions they assert.\<close>

definition check_len :: "'a list \<Rightarrow> nat \<Rightarrow> bool" where
  "check_len a n = (length a = n)"

definition check_shape :: "array \<Rightarrow> nat list \<Rightarrow> bool" where
  "check_shape a shp = (shape a = shp)"

section \<open>The invariant of a constructed object\<close>

text \<open>
  What \<^verbatim>\<open>__init__\<close> establishes and training keeps: the shapes of the three
  parameters, tied to the attribute \<^verbatim>\<open>num_hiddens\<close>.
\<close>

definition module_ok :: "nat \<Rightarrow> nat \<Rightarrow> rnn_scratch \<Rightarrow> bool" where
  "module_ok n_inputs n_hiddens m \<longleftrightarrow>
     shape (W_xh m) = [n_inputs, n_hiddens] \<and> valid (W_xh m) \<and>
     shape (W_hh m) = [n_hiddens, n_hiddens] \<and> valid (W_hh m) \<and>
     shape (b_h m) = [n_hiddens] \<and> num_hiddens m = n_hiddens"

text \<open>The operations that one pass through the loop body completes when nothing fails.\<close>

definition step_ops :: "array option \<Rightarrow> op list" where
  "step_ops state =
     (case state of
        None \<Rightarrow> [MatMul, Add, Add, Tanh]
      | Some h \<Rightarrow> [MatMul, MatMul, Add, Add, Tanh])"

section \<open>The specification's recurrence\<close>

text \<open>
  The step as the specification words it (component RecurrentCellStep): for \<open>x\<close> of
  shape (batch_size, input_dim) the next state has shape (batch_size, hidden_dim) and is
  \<open>tanh (x \<cdot> W_xh + prev_state \<cdot> W_hh + b_h)\<close>, the second term omitted (treated as
  zero) when the previous state is absent. This definition is written from the
  specification, entry by entry, in the arithmetic of the arrays, and is compared with
  \<open>loop_body\<close> below.
\<close>

definition RecurrentCellStep :: "rnn_scratch \<Rightarrow> array \<Rightarrow> array option \<Rightarrow> array" where
  "RecurrentCellStep m x prev_state =
     tab2 (nrows x) (num_hiddens m) (\<lambda>i j.
       ftanh (fadd (fadd (dot (ncols x) (item x i) (\<lambda>k. item (W_xh m) k j))
                         (case prev_state of
                            None \<Rightarrow> Fin 0
                          | Some h \<Rightarrow> dot (num_hiddens m) (item h i) (\<lambda>k. item (W_hh m) k j)))
                   (item (b_h m) 0 j)))"

text \<open>
  The sequence-level driver as the specification words it: start from the initial state
  (or none); for each step in order, compute the next state and append it to the output
  sequence.
\<close>

fun driver_step ::
  "rnn_scratch \<Rightarrow> array list \<times> array option \<Rightarrow> array \<Rightarrow> array list \<times> array option" where
  "driver_step m (outs, state) x =
     (outs @ [RecurrentCellStep m x state], Some (RecurrentCellStep m x state))"

definition SequenceDriver ::
  "rnn_scratch \<Rightarrow> array list \<Rightarrow> array option \<Rightarrow> array list \<times> array option" where
  "SequenceDriver m inputs initial_state = foldl (driver_step m) ([], initial_state) inputs"

section \<open>A concrete instance\<close>

text \<open>
  The notebook's own sizes: two inputs, three hidden units, batches of two, two time
  steps, inputs of ones. The weights are fixed numbers in place of the random draws.
\<close>

definition ex_rnn :: rnn_scratch where
  "ex_rnn = RNNScratch_init 2 3 (\<lambda>i j. Fin (1 / 2)) (\<lambda>i j. Fin (1 / 4))"

definition ex_state :: exec_state where
  "ex_state = \<lparr> self = ex_rnn, trace = [] \<rparr>"

definition ex_X :: array where
  "ex_X = Mat 2 [[Fin 1, Fin 1], [Fin 1, Fin 1]]"

definition ex_inputs :: "array list" where
  "ex_inputs = [ex_X, ex_X]"

definition ex_h :: array where
  "ex_h = Mat 3 [[Fin 0, Fin 1, Fin 0], [Fin 1, Fin 0, Fin 1]]"

definition ex_wide :: array where
  "ex_wide = Mat 5 [[Fin 1, Fin 1, Fin 1, Fin 1, Fin 1], [Fin 1, Fin 1, Fin 1, Fin 1, Fin 1]]"

definition ex_state' :: exec_state where
  "ex_state' = \<lparr> self = ex_rnn\<lparr>num_hiddens := 7\<rparr>, trace = [Tanh] \<rparr>"

text \<open>
  A cell of one input and one hidden unit with weights of one, fed the number 20; and a
  cell of the same sizes whose hidden-to-hidden weight has become infinite, fed zero.
\<close>

definition ex_unit :: exec_state where
  "ex_unit = \<lparr> self = RNNScratch_init 1 1 (\<lambda>i j. Fin 1) (\<lambda>i j. Fin 1), trace = [] \<rparr>"

definition ex_twenty :: array where
  "ex_twenty = Mat 1 [[Fin 20]]"

definition ex_inf :: exec_state where
  "ex_inf = \<lparr> self = RNNScratch_init 1 1 (\<lambda>i j. Fin 0) (\<lambda>i j. PInf), trace = [] \<rparr>"

definition ex_zero :: array where
  "ex_zero = Mat 1 [[Fin 0]]"

definition ex_nan :: array where
  "ex_nan = Mat 1 [[NaN]]"

section \<open>Facts about rounding\<close>

lemma rne_of_int [simp]: "rne (of_int m) = m"
  by (simp add: rne_def)

lemma rnd_0 [simp]: "rnd 0 = Fin 0"
  by (simp add: rnd_def)

lemma rnd_not_NaN [simp]: "rnd x \<noteq> NaN"
  by (simp add: rnd_def Let_def)

lemma rnd_exact:
  assumes x: "x = of_int m * 2 powr of_int e"
    and m: "2 ^ 23 \<le> \<bar>m\<bar>" "\<bar>m\<bar> < 2 ^ 24"
    and e: "- 149 \<le> e" "e \<le> 104"
  shows "rnd x = Fin x"
proof -
  have ax: "\<bar>x\<bar> = of_int \<bar>m\<bar> * 2 powr of_int e"
    by (simp add: x abs_mult)
  have m0: "m \<noteq> 0" using m by auto
  then have x0: "x \<noteq> 0" by (simp add: x)
  have lo: "2 powr of_int (23 + e) \<le> \<bar>x\<bar>"
  proof -
    have "(2::real) powr of_int (23 + e) = 2 ^ 23 * 2 powr of_int e"
      by (simp add: powr_add)
    also have "\<dots> \<le> of_int \<bar>m\<bar> * 2 powr of_int e"
    proof (rule mult_right_mono)
      have "(2::real) ^ 23 = of_int (2 ^ 23)" by simp
      also have "\<dots> \<le> of_int \<bar>m\<bar>" using m(1) by (subst of_int_le_iff)
      finally show "(2::real) ^ 23 \<le> of_int \<bar>m\<bar>" .
    qed simp
    finally show ?thesis by (simp add: ax)
  qed
  have hi: "\<bar>x\<bar> < 2 powr (of_int (23 + e) + 1)"
  proof -
    have "(of_int \<bar>m\<bar> :: real) * 2 powr of_int e < 2 ^ 24 * 2 powr of_int e"
    proof (rule mult_strict_right_mono)
      have "(of_int \<bar>m\<bar> :: real) < of_int (2 ^ 24)" using m(2) by (subst of_int_less_iff)
      then show "(of_int \<bar>m\<bar> :: real) < 2 ^ 24" by simp
    qed simp
    also have "\<dots> = 2 powr (of_int (23 + e) + 1)"
      by (simp add: powr_add)
    finally show ?thesis by (simp add: ax)
  qed
  have fl: "\<lfloor>log 2 \<bar>x\<bar>\<rfloor> = 23 + e"
    using x0 lo hi by (subst floor_log_eq_powr_iff) simp_all
  have ex: "expo x = 23 + e"
    using e by (simp add: expo_def fl)
  have u: "2 powr (of_int (expo x) - 23) = 2 powr of_int e"
    by (simp add: ex)
  have q: "x / 2 powr of_int e = of_int m"
    by (simp add: x)
  have "\<bar>x\<bar> < 2 powr 128"
  proof -
    have "(2::real) powr (of_int (23 + e) + 1) \<le> 2 powr 128"
      using e by (intro powr_mono) simp_all
    with hi show ?thesis by simp
  qed
  then have small: "\<not> 2 ^ 128 \<le> \<bar>x\<bar>"
    by (simp add: powr_numeral[symmetric] del: powr_numeral)
  show ?thesis
    using x0 small by (simp add: rnd_def u q Let_def) (simp add: x)
qed



lemma rne_up: "1 / 2 < r - of_int \<lfloor>r\<rfloor> \<Longrightarrow> rne r = \<lfloor>r\<rfloor> + 1"
  by (simp add: rne_def Let_def)


lemma rnd_near_one:
  assumes lo: "1 - 1 / 2 ^ 25 < x" and hi: "x < 1"
  shows "rnd x = Fin 1"
proof -
  have "(1::real) / 2 ^ 25 < 1" by simp
  with lo have x0: "0 < x" by linarith
  have half: "1 / 2 \<le> x"
  proof -
    have "(1::real) / 2 ^ 25 \<le> 1 / 2" by simp
    with lo show ?thesis by linarith
  qed
  have "\<lfloor>log 2 \<bar>x\<bar>\<rfloor> = - 1"
    using x0 half hi by (subst floor_log_eq_powr_iff) (simp_all add: powr_minus divide_simps)
  then have ex: "expo x = - 1" by (simp add: expo_def)
  have u: "(2::real) powr (of_int (expo x) - 23) = 1 / 2 ^ 24"
    by (simp add: ex powr_minus divide_simps)
  define r where "r = x * 2 ^ 24"
  have fl: "\<lfloor>r\<rfloor> = 2 ^ 24 - 1"
  proof (rule floor_unique)
    show "of_int (2 ^ 24 - 1) \<le> r" using lo by (simp add: r_def)
    show "r < of_int (2 ^ 24 - 1) + 1" using hi by (simp add: r_def)
  qed
  have "1 / 2 < r - of_int (2 ^ 24 - 1)" using lo by (simp add: r_def)
  then have "1 / 2 < r - of_int \<lfloor>r\<rfloor>" by (simp only: fl)
  then have "rne r = \<lfloor>r\<rfloor> + 1" by (rule rne_up)
  then have "rne r = 2 ^ 24" by (simp add: fl)
  moreover have "x / (1 / 2 ^ 24) = r" by (simp add: r_def)
  ultimately show ?thesis
    using x0 by (simp add: rnd_def u Let_def)
qed

lemma tanh_20: "1 - 1 / 2 ^ 25 < tanh (20::real)"
proof -
  have e1: "(2::real) \<le> exp 1" using exp_ge_add_one_self[of "1::real"] by simp
  have "(2::real) ^ 40 \<le> exp 1 ^ 40" by (rule power_mono[OF e1]) simp
  also have "\<dots> = exp (of_nat 40 * 1)" by (rule exp_of_nat_mult[symmetric])
  finally have big: "(2::real) ^ 40 \<le> exp 40" by simp
  have "exp (- 40 :: real) = 1 / exp 40" by (simp add: exp_minus inverse_eq_divide)
  also have "\<dots> \<le> 1 / 2 ^ 40" using big by (simp add: frac_le)
  finally have small: "exp (- 40 :: real) \<le> 1 / 2 ^ 40" .
  define d :: real where "d = exp (- 40)"
  have d0: "0 < d" by (simp add: d_def)
  have "tanh (20::real) = (1 - d) / (1 + d)"
    by (simp add: tanh_real_altdef d_def)
  then have "1 - tanh (20::real) = 2 * d / (1 + d)"
    using d0 by (simp add: field_simps)
  also have "\<dots> \<le> 2 * d"
    using d0 by (simp add: divide_le_eq)
  also have "\<dots> \<le> 2 * (1 / 2 ^ 40)" using small by (simp add: d_def)
  also have "\<dots> < 1 / 2 ^ 25" by simp
  finally show ?thesis by simp
qed

lemma rnd_tanh_20: "rnd (tanh 20) = Fin 1"
  by (rule rnd_near_one[OF tanh_20 tanh_real_lt_1])

lemma rnd_half [simp]: "rnd (1 / 2) = Fin (1 / 2)"
  by (rule rnd_exact[of _ "2 ^ 23" "- 24"]) (simp_all add: powr_minus divide_simps)

lemma rnd_1 [simp]: "rnd 1 = Fin 1"
  by (rule rnd_exact[of _ "2 ^ 23" "- 23"]) (simp_all add: powr_minus divide_simps)

lemma rnd_20 [simp]: "rnd 20 = Fin 20"
  by (rule rnd_exact[of _ "10485760" "- 19"]) (simp_all add: powr_minus divide_simps)


lemma dot_Suc: "dot (Suc n) f g = fadd (dot n f g) (fmul (f n) (g n))"
  by (simp add: dot_def)

lemma dot_zero_left:
  assumes "\<And>k. k < n \<Longrightarrow> f k = Fin 0" and "\<And>k. k < n \<Longrightarrow> is_fin (g k)"
  shows "dot n f g = Fin 0"
  using assms
proof (induction n)
  case 0
  show ?case by (simp add: dot_def)
next
  case (Suc n)
  have "dot n f g = Fin 0" by (rule Suc.IH) (simp_all add: Suc.prems)
  moreover have "f n = Fin 0" by (simp add: Suc.prems)
  moreover obtain w where "g n = Fin w"
    using Suc.prems(2)[of n] by (cases "g n") simp_all
  ultimately show ?case by (simp add: dot_Suc)
qed

section \<open>Facts about the array operations\<close>

lemma shape2_iff: "shape A = [r, c] \<longleftrightarrow> (\<exists>rows. A = Mat c rows \<and> length rows = r)"
  by (cases A) auto

lemma shape1_iff: "shape A = [n] \<longleftrightarrow> (\<exists>xs. A = Vec xs \<and> length xs = n)"
  by (cases A) auto

lemma dims_shape2: "shape A = [r, c] \<Longrightarrow> nrows A = r \<and> ncols A = c \<and> ndim A = 2"
  by (auto simp: shape2_iff)

lemma shape_tab2 [simp]: "shape (tab2 r c f) = [r, c]"
  by (simp add: tab2_def)

lemma valid_tab2 [simp]: "valid (tab2 r c f)"
  by (simp add: tab2_def list_all_iff)

lemma item_tab2 [simp]: "i < r \<Longrightarrow> j < c \<Longrightarrow> item (tab2 r c f) i j = f i j"
  by (simp add: tab2_def)

lemma tab2_cong: "(\<And>i j. i < r \<Longrightarrow> j < c \<Longrightarrow> f i j = g i j) \<Longrightarrow> tab2 r c f = tab2 r c g"
  by (simp add: tab2_def)

lemma build_2 [simp]: "build 2 r c f = tab2 r c f"
  by (simp add: numeral_2_eq_2)

lemma bitem_item: "i < nrows A \<Longrightarrow> j < ncols A \<Longrightarrow> bitem A i j = item A i j"
  by (auto simp: bitem_def)

lemma matmul_shape2:
  "shape A = [r, k] \<Longrightarrow> shape B = [k, c] \<Longrightarrow>
   matmul A B = Inr (tab2 r c (\<lambda>i j. dot k (item A i) (\<lambda>t. item B t j)))"
  by (auto simp: shape2_iff dot_def intro!: tab2_cong)

lemma matmul_mismatch:
  "shape A = [r, k] \<Longrightarrow> shape B = [k', c] \<Longrightarrow> k \<noteq> k' \<Longrightarrow> matmul A B = Inl ShapeMismatch"
  by (auto simp: shape2_iff)

lemma add_shape2:
  "shape A = [r, c] \<Longrightarrow> shape B = [r, c] \<Longrightarrow>
   add A B = Inr (tab2 r c (\<lambda>i j. fadd (item A i j) (item B i j)))"
  by (auto simp: shape2_iff add_def broadcast_dim_def bitem_item intro!: tab2_cong)

lemma add_scalar:
  "shape A = [r, c] \<Longrightarrow> add A (Scal z) = Inr (tab2 r c (\<lambda>i j. fadd (item A i j) z))"
  by (auto simp: shape2_iff add_def broadcast_dim_def bitem_item bitem_def intro!: tab2_cong)

lemma add_bias:
  "shape A = [r, c] \<Longrightarrow> shape b = [c] \<Longrightarrow>
   add A b = Inr (tab2 r c (\<lambda>i j. fadd (item A i j) (item b 0 j)))"
  by (auto simp: shape2_iff shape1_iff add_def broadcast_dim_def bitem_item bitem_def
      intro!: tab2_cong)

lemma jnp_tanh_tab2: "jnp_tanh (tab2 r c f) = tab2 r c (\<lambda>i j. ftanh (f i j))"
  by (simp add: tab2_def)

lemma init_ok: "module_ok n_in n_hid (RNNScratch_init n_in n_hid wxh whh)"
  by (simp add: module_ok_def RNNScratch_init_def)

section \<open>The loop body and the loop\<close>

lemma loop_body_ok:
  assumes m: "module_ok n_in n_hid (self \<sigma>)"
    and X: "shape X = [B, n_in]"
    and st: "\<And>h. state = Some h \<Longrightarrow> shape h = [B, n_hid]"
  shows "loop_body X state \<sigma> =
           (\<sigma>\<lparr>trace := trace \<sigma> @ step_ops state\<rparr>,
            Inr (RecurrentCellStep (self \<sigma>) X state))"
proof -
  have d: "nrows X = B" "ncols X = n_in"
    using dims_shape2[OF X] by simp_all
  show ?thesis
  proof (cases state)
    case None
    with m show ?thesis
      by (simp add: loop_body_def bind_exec_def lib_def return_exec_def module_ok_def
          matmul_shape2[OF X] add_scalar add_bias jnp_tanh_tab2 RecurrentCellStep_def
          step_ops_def d) (rule tab2_cong, simp)
  next
    case (Some h)
    with m st[OF Some] show ?thesis
      by (simp add: loop_body_def bind_exec_def lib_def return_exec_def module_ok_def
          matmul_shape2[OF X] matmul_shape2[of h] add_shape2 add_bias jnp_tanh_tab2
          RecurrentCellStep_def step_ops_def d) (rule tab2_cong, simp)
  qed
qed


lemma loop_body_self: "self (fst (loop_body X state \<sigma>)) = self \<sigma>"
  by (simp add: loop_body_def bind_exec_def lib_def return_exec_def
      split: sum.splits option.splits)

lemma loop_body_params:
  assumes "W_xh (self \<sigma>') = W_xh (self \<sigma>)" "W_hh (self \<sigma>') = W_hh (self \<sigma>)"
    "b_h (self \<sigma>') = b_h (self \<sigma>)"
  shows "snd (loop_body X state \<sigma>') = snd (loop_body X state \<sigma>)"
  using assms
  by (simp add: loop_body_def bind_exec_def lib_def return_exec_def
      split: sum.splits option.splits)

lemma call_loop_self: "self (fst (call_loop inputs outs state \<sigma>)) = self \<sigma>"
proof (induction inputs arbitrary: outs state \<sigma>)
  case Nil
  show ?case by (simp add: return_exec_def)
next
  case (Cons X inputs)
  obtain \<sigma>1 r where b: "loop_body X state \<sigma> = (\<sigma>1, r)"
    by (cases "loop_body X state \<sigma>")
  have s1: "self \<sigma>1 = self \<sigma>"
    using loop_body_self[of X state \<sigma>] b by simp
  show ?case
  proof (cases r)
    case (Inl e)
    with b s1 show ?thesis by (simp add: bind_exec_def)
  next
    case (Inr s)
    with b s1 Cons.IH[of "outs @ [s]" "Some s" \<sigma>1] show ?thesis
      by (simp add: bind_exec_def)
  qed
qed

lemma call_loop_params:
  assumes "W_xh (self \<sigma>') = W_xh (self \<sigma>)" "W_hh (self \<sigma>') = W_hh (self \<sigma>)"
    "b_h (self \<sigma>') = b_h (self \<sigma>)"
  shows "snd (call_loop inputs outs state \<sigma>') = snd (call_loop inputs outs state \<sigma>)"
  using assms
proof (induction inputs arbitrary: outs state \<sigma> \<sigma>')
  case Nil
  show ?case by (simp add: return_exec_def)
next
  case (Cons X inputs)
  obtain \<sigma>1 r where b: "loop_body X state \<sigma> = (\<sigma>1, r)"
    by (cases "loop_body X state \<sigma>")
  obtain \<sigma>1' r' where b': "loop_body X state \<sigma>' = (\<sigma>1', r')"
    by (cases "loop_body X state \<sigma>'")
  have s1: "self \<sigma>1 = self \<sigma>" "self \<sigma>1' = self \<sigma>'"
    using loop_body_self[of X state \<sigma>] loop_body_self[of X state \<sigma>'] b b' by simp_all
  have rr: "r' = r"
    using loop_body_params[OF Cons.prems, of X state] b b' by simp
  show ?case
  proof (cases r)
    case (Inl e)
    with b b' rr show ?thesis by (simp add: bind_exec_def)
  next
    case (Inr s)
    have "snd (call_loop inputs (outs @ [s]) (Some s) \<sigma>1')
        = snd (call_loop inputs (outs @ [s]) (Some s) \<sigma>1)"
      by (rule Cons.IH) (simp_all add: s1 Cons.prems)
    with Inr b b' rr show ?thesis by (simp add: bind_exec_def)
  qed
qed

lemma shape_RecurrentCellStep:
  "shape (RecurrentCellStep m X state) = [nrows X, num_hiddens m]"
  by (simp add: RecurrentCellStep_def)

lemma call_loop_ok:
  assumes m: "module_ok n_in n_hid (self \<sigma>)"
    and X: "list_all (\<lambda>X. shape X = [B, n_in]) inputs"
    and st: "\<And>h. state = Some h \<Longrightarrow> shape h = [B, n_hid]"
  shows "snd (call_loop inputs outs state \<sigma>) =
           Inr (foldl (driver_step (self \<sigma>)) (outs, state) inputs)"
  using assms
proof (induction inputs arbitrary: outs state \<sigma>)
  case Nil
  show ?case by (simp add: return_exec_def)
next
  case (Cons X inputs)
  have X: "shape X = [B, n_in]" using Cons.prems(2) by simp
  let ?s = "RecurrentCellStep (self \<sigma>) X state"
  let ?\<sigma>1 = "\<sigma>\<lparr>trace := trace \<sigma> @ step_ops state\<rparr>"
  have b: "loop_body X state \<sigma> = (?\<sigma>1, Inr ?s)"
    by (rule loop_body_ok[OF Cons.prems(1) X]) (rule Cons.prems(3))
  have sh: "shape ?s = [B, n_hid]"
    using Cons.prems(1) dims_shape2[OF X] by (simp add: shape_RecurrentCellStep module_ok_def)
  have "snd (call_loop inputs (outs @ [?s]) (Some ?s) ?\<sigma>1) =
     Inr (foldl (driver_step (self ?\<sigma>1)) (outs @ [?s], Some ?s) inputs)"
    by (rule Cons.IH) (use Cons.prems sh in simp_all)
  with b show ?case by (simp add: bind_exec_def)
qed


lemma call_loop_result:
  assumes "snd (call_loop inputs outs0 state \<sigma>) = Inr (outs, fin)"
  shows "\<exists>new. outs = outs0 @ new \<and> length new = length inputs \<and>
           fin = (if inputs = [] then state else Some (last new)) \<and>
           (\<forall>t < length inputs.
              snd (loop_body (inputs ! t) (if t = 0 then state else Some (new ! (t - 1))) \<sigma>)
                = Inr (new ! t))"
  using assms
proof (induction inputs arbitrary: outs0 state \<sigma>)
  case Nil
  then show ?case by (simp add: return_exec_def)
next
  case (Cons X inputs)
  obtain \<sigma>1 r where b: "loop_body X state \<sigma> = (\<sigma>1, r)"
    by (cases "loop_body X state \<sigma>")
  have s1: "self \<sigma>1 = self \<sigma>"
    using loop_body_self[of X state \<sigma>] b by simp
  from Cons.prems b obtain s where r: "r = Inr s"
    by (cases r) (simp_all add: bind_exec_def)
  with Cons.prems b
  have "snd (call_loop inputs (outs0 @ [s]) (Some s) \<sigma>1) = Inr (outs, fin)"
    by (simp add: bind_exec_def)
  from Cons.IH[OF this] obtain new where
    n: "outs = (outs0 @ [s]) @ new" "length new = length inputs"
      "fin = (if inputs = [] then Some s else Some (last new))"
    and steps: "\<And>t. t < length inputs \<Longrightarrow>
        snd (loop_body (inputs ! t) (if t = 0 then Some s else Some (new ! (t - 1))) \<sigma>1)
          = Inr (new ! t)"
    by blast
  have same: "snd (loop_body Y st \<sigma>1) = snd (loop_body Y st \<sigma>)" for Y st
    by (rule loop_body_params) (simp_all add: s1)
  have "\<forall>t < length (X # inputs).
          snd (loop_body ((X # inputs) ! t)
                 (if t = 0 then state else Some ((s # new) ! (t - 1))) \<sigma>) = Inr ((s # new) ! t)"
  proof (intro allI impI)
    fix t assume t: "t < length (X # inputs)"
    show "snd (loop_body ((X # inputs) ! t)
                 (if t = 0 then state else Some ((s # new) ! (t - 1))) \<sigma>) = Inr ((s # new) ! t)"
    proof (cases t)
      case 0
      with b r show ?thesis by simp
    next
      case (Suc u)
      with t have u: "u < length inputs" by simp
      have "(if u = 0 then Some s else Some (new ! (u - 1))) = Some ((s # new) ! u)"
        by (cases u) simp_all
      with steps[OF u] same Suc show ?thesis by simp
    qed
  qed
  moreover have "outs = outs0 @ (s # new)" "length (s # new) = length (X # inputs)"
    "fin = Some (last (s # new))"
    using n by (auto)
  ultimately show ?case by (intro exI[of _ "s # new"]) simp
qed

lemma shape_zeros [simp]: "shape (zeros r c) = [r, c]"
  by (simp add: zeros_def)

lemma item_zeros [simp]: "i < r \<Longrightarrow> j < c \<Longrightarrow> item (zeros r c) i j = Fin 0"
  by (simp add: zeros_def)

lemma item_finite:
  assumes "shape A = [r, c]" "valid A" "all_finite A" "i < r" "j < c"
  shows "is_fin (item A i j)"
proof -
  from assms(1) obtain rows where A: "A = Mat c rows" "length rows = r"
    by (auto simp: shape2_iff)
  with assms have "rows ! i \<in> set rows" "length (rows ! i) = c"
    by (simp_all add: list_all_iff)
  with assms(5) have "rows ! i ! j \<in> set (rows ! i)" "rows ! i \<in> set rows"
    by simp_all
  then have "rows ! i ! j \<in> set (concat rows)" by auto
  with assms(3) A show ?thesis by (auto simp: all_finite_def list_all_iff)
qed

lemma step_zeros:
  assumes "module_ok n_in n_hid m" "all_finite (W_hh m)"
  shows "RecurrentCellStep m x (Some (zeros (nrows x) n_hid)) = RecurrentCellStep m x None"
proof -
  have nh: "num_hiddens m = n_hid" and sh: "shape (W_hh m) = [n_hid, n_hid]"
    and v: "valid (W_hh m)"
    using assms(1) by (simp_all add: module_ok_def)
  have z: "dot n_hid (item (zeros (nrows x) n_hid) i) (\<lambda>k. item (W_hh m) k j) = Fin 0"
    if "i < nrows x" "j < n_hid" for i j
    by (rule dot_zero_left) (simp_all add: that item_finite[OF sh v assms(2)])
  show ?thesis
    unfolding RecurrentCellStep_def nh by (rule tab2_cong) (simp add: z)
qed

lemma loop_body_bad_x:
  assumes m: "module_ok n_in n_hid (self \<sigma>)" and x: "shape x = [B, c]" and c: "c \<noteq> n_in"
  shows "loop_body x state \<sigma> = (\<sigma>, Inl ShapeMismatch)"
proof -
  have "matmul x (W_xh (self \<sigma>)) = Inl ShapeMismatch"
    using m by (intro matmul_mismatch[OF x _ c]) (simp add: module_ok_def)
  then show ?thesis
    by (simp add: loop_body_def bind_exec_def lib_def)
qed

lemma loop_body_bad_state:
  assumes m: "module_ok n_in n_hid (self \<sigma>)" and x: "shape x = [B, n_in]"
    and h: "shape h = [B', c']" and c: "c' \<noteq> n_hid"
  shows "loop_body x (Some h) \<sigma> = (\<sigma>\<lparr>trace := trace \<sigma> @ [MatMul]\<rparr>, Inl ShapeMismatch)"
proof -
  have w: "shape (W_xh (self \<sigma>)) = [n_in, n_hid]" "shape (W_hh (self \<sigma>)) = [n_hid, n_hid]"
    using m by (simp_all add: module_ok_def)
  have "matmul h (W_hh (self \<sigma>)) = Inl ShapeMismatch"
    by (rule matmul_mismatch[OF h w(2) c])
  then show ?thesis
    by (simp add: loop_body_def bind_exec_def lib_def matmul_shape2[OF x w(1)])
qed

lemma valid_RecurrentCellStep: "valid (RecurrentCellStep m X state)"
  by (simp add: RecurrentCellStep_def)

lemma driver_outputs:
  assumes nh: "num_hiddens m = n_hid"
    and inputs: "list_all (\<lambda>X. shape X = [B, n_in]) inputs"
    and outs: "list_all (\<lambda>s. shape s = [B, n_hid] \<and> valid s) outs"
  shows "list_all (\<lambda>s. shape s = [B, n_hid] \<and> valid s)
           (fst (foldl (driver_step m) (outs, state) inputs)) \<and>
         length (fst (foldl (driver_step m) (outs, state) inputs)) = length outs + length inputs"
  using inputs outs
proof (induction inputs arbitrary: outs state)
  case Nil
  then show ?case by simp
next
  case (Cons X inputs)
  have X: "shape X = [B, n_in]" using Cons.prems(1) by simp
  have "shape (RecurrentCellStep m X state) = [B, n_hid]"
    using dims_shape2[OF X] nh by (simp add: shape_RecurrentCellStep)
  with Cons.prems have "list_all (\<lambda>s. shape s = [B, n_hid] \<and> valid s)
      (outs @ [RecurrentCellStep m X state])"
    by (simp add: valid_RecurrentCellStep)
  from Cons.IH[OF _ this, of "Some (RecurrentCellStep m X state)"] Cons.prems(1)
  show ?case by simp
qed

lemma call_self: "self (fst (RNNScratch_call inputs st \<sigma>)) = self \<sigma>"
  by (simp add: RNNScratch_call_def call_loop_self split: sum.splits)

lemma call_params:
  assumes "W_xh (self \<sigma>') = W_xh (self \<sigma>)" "W_hh (self \<sigma>') = W_hh (self \<sigma>)"
    "b_h (self \<sigma>') = b_h (self \<sigma>)"
  shows "snd (RNNScratch_call inputs st \<sigma>') = snd (RNNScratch_call inputs st \<sigma>)"
  using call_loop_params[OF assms]
  by (simp add: RNNScratch_call_def split: sum.splits)

lemma call_ok:
  assumes m: "module_ok n_in n_hid (self \<sigma>)"
    and inputs: "list_all (\<lambda>X. shape X = [B, n_in]) inputs"
    and st: "st = PyNone \<and> init = None \<or> st = PyTuple [h] \<and> init = Some h \<and> shape h = [B, n_hid]"
  shows "snd (RNNScratch_call inputs st \<sigma>) = Inr (SequenceDriver (self \<sigma>) inputs init)"
proof -
  have u: "unpack_state st = Inr init" using st by auto
  have "snd (call_loop inputs [] init \<sigma>) = Inr (foldl (driver_step (self \<sigma>)) ([], init) inputs)"
    by (rule call_loop_ok[OF m inputs]) (use st in auto)
  with u show ?thesis by (simp add: RNNScratch_call_def SequenceDriver_def)
qed

lemma call_result:
  assumes "snd (RNNScratch_call inputs st \<sigma>) = Inr (outs, fin)"
  shows "\<exists>init. unpack_state st = Inr init \<and> length outs = length inputs \<and>
           fin = (if inputs = [] then init else Some (last outs)) \<and>
           (\<forall>t < length inputs.
              snd (loop_body (inputs ! t) (if t = 0 then init else Some (outs ! (t - 1))) \<sigma>)
                = Inr (outs ! t))"
proof (cases "unpack_state st")
  case (Inl e)
  with assms show ?thesis by (simp add: RNNScratch_call_def)
next
  case (Inr init)
  with assms have "snd (call_loop inputs [] init \<sigma>) = Inr (outs, fin)"
    by (simp add: RNNScratch_call_def)
  from call_loop_result[OF this] Inr show ?thesis by auto
qed

lemma unpack_fails:
  "s \<noteq> PyNone \<Longrightarrow> py_len s \<noteq> Some 1 \<Longrightarrow> unpack_state s = Inl UnpackError"
  by (cases s rule: unpack_state.cases) auto

lemma returned_state:
  assumes m: "module_ok n_in n_hid (self \<sigma>)"
    and inputs: "list_all (\<lambda>X. shape X = [B, n_in]) inputs"
    and ne: "inputs \<noteq> []"
  shows "\<exists>outs fin. snd (RNNScratch_call inputs PyNone \<sigma>) = Inr (outs, Some fin) \<and>
           shape fin = [B, n_hid]"
proof -
  let ?r = "SequenceDriver (self \<sigma>) inputs None"
  have nh: "num_hiddens (self \<sigma>) = n_hid" using m by (simp add: module_ok_def)
  have run: "snd (RNNScratch_call inputs PyNone \<sigma>) = Inr (fst ?r, snd ?r)"
    using call_ok[OF m inputs, of PyNone None] by simp
  from call_result[OF run] ne have fin: "snd ?r = Some (last (fst ?r))"
    and len: "length (fst ?r) = length inputs"
    by auto
  have all: "list_all (\<lambda>s. shape s = [B, n_hid] \<and> valid s) (fst ?r)"
    using driver_outputs[OF nh inputs, of "[]" None] by (simp add: SequenceDriver_def)
  from len ne have "fst ?r \<noteq> []" by auto
  then have "last (fst ?r) \<in> set (fst ?r)" by simp
  with all have "shape (last (fst ?r)) = [B, n_hid]"
    by (simp add: list_all_iff)
  with run fin show ?thesis by auto
qed

section \<open>Facts about the concrete instance\<close>

lemma ex_ok: "module_ok 2 3 (self ex_state)"
  by (simp add: ex_state_def ex_rnn_def init_ok)

lemma ex_shapes:
  "shape ex_X = [2, 2]" "shape ex_h = [2, 3]" "shape ex_wide = [2, 5]"
  "list_all (\<lambda>X. shape X = [2, 2]) ex_inputs"
  by (simp_all add: ex_X_def ex_h_def ex_wide_def ex_inputs_def)

lemma upt2: "[0..<2] = [0, 1]" "[0..<3] = [0, 1, 2]"
  by (simp_all add: upt_rec)

lemma ex_step_value:
  "RecurrentCellStep ex_rnn ex_X None
     = Mat 3 [[ftanh (Fin 1), ftanh (Fin 1), ftanh (Fin 1)],
              [ftanh (Fin 1), ftanh (Fin 1), ftanh (Fin 1)]]"
  by (simp add: RecurrentCellStep_def ex_rnn_def ex_X_def RNNScratch_init_def tab2_def dot_def upt2)

lemma ex_finite: "all_finite (W_hh (self ex_state))"
  by (simp add: ex_state_def ex_rnn_def RNNScratch_init_def tab2_def all_finite_def upt2)

lemma ex_unit_ok: "module_ok 1 1 (self ex_unit)" "module_ok 1 1 (self ex_inf)"
  by (simp_all add: ex_unit_def ex_inf_def init_ok)

lemma ex_unit_shapes: "shape ex_twenty = [1, 1]" "shape ex_zero = [1, 1]" "shape ex_nan = [1, 1]"
  by (simp_all add: ex_twenty_def ex_zero_def ex_nan_def)

lemma ex_unit_values:
  "RecurrentCellStep (self ex_unit) ex_twenty None = Mat 1 [[Fin 1]]"
  "RecurrentCellStep (self ex_unit) ex_nan None = Mat 1 [[NaN]]"
  "RecurrentCellStep (self ex_inf) ex_zero None = Mat 1 [[Fin 0]]"
  "RecurrentCellStep (self ex_inf) ex_zero (Some (zeros 1 1)) = Mat 1 [[NaN]]"
  by (simp_all add: RecurrentCellStep_def ex_unit_def ex_inf_def ex_twenty_def ex_zero_def
      ex_nan_def RNNScratch_init_def tab2_def dot_def zeros_def rnd_tanh_20)



section \<open>The claims\<close>

text \<open>
  Claim C1. For an input \<open>x\<close> of shape (batch_size, input_dim) and a previous state of
  shape (batch_size, hidden_dim), or none, one pass through the loop body of
  \<^verbatim>\<open>__call__\<close> returns the matrix that the specification names,
  \<open>tanh (x \<cdot> W_xh + prev_state \<cdot> W_hh + b_h)\<close> with the middle term zero when the previous
  state is absent; and \<^verbatim>\<open>__call__\<close>, started without a state or with the one-element
  tuple that wraps \<open>h0\<close>, returns what folding that step over the inputs in order
  returns, each new state appended to the outputs.
\<close>

theorem C1_step_and_driver:
  assumes m: "module_ok n_in n_hid (self \<sigma>)"
    and x: "shape x = [B, n_in]"
    and prev: "prev_state = None \<or> (\<exists>h. prev_state = Some h \<and> shape h = [B, n_hid])"
    and inputs: "list_all (\<lambda>X. shape X = [B, n_in]) inputs"
    and h0: "shape h0 = [B, n_hid]"
  shows "snd (loop_body x prev_state \<sigma>) = Inr (RecurrentCellStep (self \<sigma>) x prev_state) \<and>
         snd (RNNScratch_call inputs PyNone \<sigma>) = Inr (SequenceDriver (self \<sigma>) inputs None) \<and>
         snd (RNNScratch_call inputs (PyTuple [h0]) \<sigma>)
           = Inr (SequenceDriver (self \<sigma>) inputs (Some h0))"
proof -
  have p: "\<And>h. prev_state = Some h \<Longrightarrow> shape h = [B, n_hid]"
    using prev by auto
  have "snd (loop_body x prev_state \<sigma>) = Inr (RecurrentCellStep (self \<sigma>) x prev_state)"
    using loop_body_ok[OF m x p] by simp
  moreover have "snd (call_loop inputs [] None \<sigma>)
      = Inr (foldl (driver_step (self \<sigma>)) ([], None) inputs)"
    by (rule call_loop_ok[OF m inputs]) simp
  moreover have "snd (call_loop inputs [] (Some h0) \<sigma>)
      = Inr (foldl (driver_step (self \<sigma>)) ([], Some h0) inputs)"
    by (rule call_loop_ok[OF m inputs]) (simp add: h0)
  ultimately show ?thesis
    by (simp add: RNNScratch_call_def SequenceDriver_def)
qed

text \<open>The notebook's instance: with inputs of ones every entry of the first state is \<open>tanh 1\<close>.\<close>

theorem C1_witness:
  "module_ok 2 3 (self ex_state) \<and> shape ex_X = [2, 2] \<and> shape ex_h = [2, 3] \<and>
   list_all (\<lambda>X. shape X = [2, 2]) ex_inputs \<and>
   snd (loop_body ex_X None ex_state)
     = Inr (Mat 3 [[ftanh (Fin 1), ftanh (Fin 1), ftanh (Fin 1)],
                   [ftanh (Fin 1), ftanh (Fin 1), ftanh (Fin 1)]]) \<and>
   snd (loop_body ex_X (Some ex_h) ex_state)
     = Inr (RecurrentCellStep (self ex_state) ex_X (Some ex_h)) \<and>
   snd (RNNScratch_call ex_inputs PyNone ex_state)
     = Inr (SequenceDriver (self ex_state) ex_inputs None) \<and>
   snd (RNNScratch_call ex_inputs (PyTuple [ex_h]) ex_state)
     = Inr (SequenceDriver (self ex_state) ex_inputs (Some ex_h))"
proof -
  have v: "RecurrentCellStep (self ex_state) ex_X None
      = Mat 3 [[ftanh (Fin 1), ftanh (Fin 1), ftanh (Fin 1)],
                   [ftanh (Fin 1), ftanh (Fin 1), ftanh (Fin 1)]]"
    by (simp add: ex_step_value ex_state_def)
  from C1_step_and_driver[OF ex_ok ex_shapes(1) _ ex_shapes(4) ex_shapes(2), of None]
    C1_step_and_driver[OF ex_ok ex_shapes(1) _ ex_shapes(4) ex_shapes(2), of "Some ex_h"]
    ex_ok ex_shapes v
  show ?thesis by simp
qed

text \<open>
  Claim C2, as the specification states it, has the step detect a shape violation before
  any matrix operation is attempted. The loop body has no check of its own: the error is
  the one \<^verbatim>\<open>jnp.matmul\<close> raises. With a well-shaped \<open>x\<close> and a previous state of five
  columns for three hidden units, the product \<open>x \<cdot> W_xh\<close> has been computed when the
  second \<^verbatim>\<open>matmul\<close> raises.
\<close>

theorem C2_counterexample:
  "module_ok 2 3 (self ex_state) \<and> shape ex_X = [2, 2] \<and> shape ex_wide = [2, 5] \<and>
   snd (loop_body ex_X (Some ex_wide) ex_state) = Inl ShapeMismatch \<and>
   trace ex_state = [] \<and>
   trace (fst (loop_body ex_X (Some ex_wide) ex_state)) = [MatMul] \<and>
   trace (fst (loop_body ex_X (Some ex_wide) ex_state)) \<noteq> trace ex_state"
proof -
  have w: "shape (W_xh (self ex_state)) = [2, 3]" "shape (W_hh (self ex_state)) = [3, 3]"
    using ex_ok by (simp_all add: module_ok_def)
  have "matmul ex_wide (W_hh (self ex_state)) = Inl ShapeMismatch"
    by (rule matmul_mismatch[OF ex_shapes(3) w(2)]) simp
  then have "loop_body ex_X (Some ex_wide) ex_state
      = (ex_state\<lparr>trace := trace ex_state @ [MatMul]\<rparr>, Inl ShapeMismatch)"
    by (simp add: loop_body_def bind_exec_def lib_def matmul_shape2[OF ex_shapes(1) w(1)])
  then show ?thesis
    using ex_ok ex_shapes by (simp add: ex_state_def)
qed

text \<open>
  Claim C2, amended. When the second dimension of \<open>x\<close> differs from input_dim, the step
  fails with the library's shape error before any array operation has completed. When
  \<open>x\<close> is well-shaped and the second dimension of the previous state differs from
  hidden_dim, it fails with the same error after the product \<open>x \<cdot> W_xh\<close> alone has
  completed. Nothing is coerced or padded: no result is produced. A failing step ends
  the driver at once with that error, no later input is touched, and the object is as
  it was.
\<close>

theorem C2_shape_errors:
  assumes m: "module_ok n_in n_hid (self \<sigma>)"
  shows "(shape x1 = [B1, c1] \<and> c1 \<noteq> n_in \<longrightarrow>
            loop_body x1 state1 \<sigma> = (\<sigma>, Inl ShapeMismatch)) \<and>
         (shape x2 = [B2, n_in] \<and> shape h2 = [B2', c2] \<and> c2 \<noteq> n_hid \<longrightarrow>
            loop_body x2 (Some h2) \<sigma> = (\<sigma>\<lparr>trace := trace \<sigma> @ [MatMul]\<rparr>, Inl ShapeMismatch)) \<and>
         (snd (loop_body x3 state3 \<sigma>) = Inl e \<longrightarrow>
            call_loop (x3 # rest) outs state3 \<sigma> = (fst (loop_body x3 state3 \<sigma>), Inl e) \<and>
            self (fst (call_loop (x3 # rest) outs state3 \<sigma>)) = self \<sigma>)"
proof -
  have 3: "call_loop (x3 # rest) outs state3 \<sigma> = (fst (loop_body x3 state3 \<sigma>), Inl e)"
    if "snd (loop_body x3 state3 \<sigma>) = Inl e"
    using that by (cases "loop_body x3 state3 \<sigma>") (simp add: bind_exec_def)
  show ?thesis
    using loop_body_bad_x[OF m, of x1 B1 c1 state1] loop_body_bad_state[OF m, of x2 B2 h2 B2' c2] 3
    by (simp add: call_loop_self loop_body_self del: call_loop.simps)
qed

text \<open>
  An input of five columns for a cell of two inputs, and a state of five columns for a
  cell of three hidden units.
\<close>

theorem C2_witness:
  "module_ok 2 3 (self ex_state) \<and> shape ex_wide = [2, 5] \<and> (5::nat) \<noteq> 2 \<and>
   loop_body ex_wide None ex_state = (ex_state, Inl ShapeMismatch) \<and>
   shape ex_X = [2, 2] \<and> (5::nat) \<noteq> 3 \<and>
   loop_body ex_X (Some ex_wide) ex_state
     = (ex_state\<lparr>trace := trace ex_state @ [MatMul]\<rparr>, Inl ShapeMismatch) \<and>
   snd (loop_body ex_wide None ex_state) = Inl ShapeMismatch \<and>
   call_loop (ex_wide # ex_inputs) [] None ex_state = (ex_state, Inl ShapeMismatch)"
proof -
  have n: "(5::nat) \<noteq> 2" "(5::nat) \<noteq> 3" by simp_all
  from C2_shape_errors[OF ex_ok, of ex_wide 2 5 None ex_X 2 ex_wide 2 5 ex_wide None
      ShapeMismatch ex_inputs "[]"] ex_ok ex_shapes n
  show ?thesis by simp
qed

text \<open>
  Claim C3, as the specification states it, holds for every parameter value. A
  hidden-to-hidden weight that training has driven to infinity breaks it: without a
  previous state the second product is never formed and the step returns zero, while
  with the all-zeros state the product of zero and infinity is NaN and so is the result.
\<close>

theorem C3_counterexample:
  "module_ok 1 1 (self ex_inf) \<and> shape ex_zero = [1, 1] \<and>
   snd (loop_body ex_zero None ex_inf) = Inr (Mat 1 [[Fin 0]]) \<and>
   snd (loop_body ex_zero (Some (zeros 1 1)) ex_inf) = Inr (Mat 1 [[NaN]]) \<and>
   snd (loop_body ex_zero None ex_inf) \<noteq> snd (loop_body ex_zero (Some (zeros 1 1)) ex_inf)"
proof -
  have a: "snd (loop_body ex_zero None ex_inf) = Inr (Mat 1 [[Fin 0]])"
    using loop_body_ok[OF ex_unit_ok(2) ex_unit_shapes(2), of None] ex_unit_values(3)
    by simp
  have b: "snd (loop_body ex_zero (Some (zeros 1 1)) ex_inf) = Inr (Mat 1 [[NaN]])"
    using loop_body_ok[OF ex_unit_ok(2) ex_unit_shapes(2), of "Some (zeros 1 1)"]
      ex_unit_values(4)
    by simp
  from a b have "snd (loop_body ex_zero None ex_inf)
      \<noteq> snd (loop_body ex_zero (Some (zeros 1 1)) ex_inf)"
    by simp
  with a b ex_unit_ok(2) ex_unit_shapes(2) show ?thesis
    by blast
qed

text \<open>
  Claim C3, amended. When every entry of \<^verbatim>\<open>W_hh\<close> is finite, then for every matrix
  \<open>x\<close> with \<open>B\<close> rows the step without a previous state returns exactly what the step
  with the all-zeros previous state of shape (\<open>B\<close>, hidden_dim) returns; for an
  ill-shaped \<open>x\<close> both raise the same error. Nothing is asked of \<open>x\<close>, \<^verbatim>\<open>W_xh\<close> or
  \<^verbatim>\<open>b_h\<close>.
\<close>

theorem C3_absent_is_zeros:
  assumes m: "module_ok n_in n_hid (self \<sigma>)" and fin: "all_finite (W_hh (self \<sigma>))"
    and x: "shape x = [B, c]"
  shows "snd (loop_body x None \<sigma>) = snd (loop_body x (Some (zeros B n_hid)) \<sigma>)"
proof (cases "c = n_in")
  case True
  have B: "nrows x = B" using dims_shape2[OF x] by simp
  from x True have x': "shape x = [B, n_in]" by simp
  have "snd (loop_body x None \<sigma>) = Inr (RecurrentCellStep (self \<sigma>) x None)"
    using loop_body_ok[OF m x', of None] by simp
  moreover have "snd (loop_body x (Some (zeros B n_hid)) \<sigma>)
      = Inr (RecurrentCellStep (self \<sigma>) x (Some (zeros B n_hid)))"
    using loop_body_ok[OF m x', of "Some (zeros B n_hid)"] by simp
  ultimately show ?thesis
    using step_zeros[OF m fin, of x] B by simp
next
  case False
  then show ?thesis by (simp add: loop_body_bad_x[OF m x])
qed

theorem C3_witness:
  "module_ok 2 3 (self ex_state) \<and> all_finite (W_hh (self ex_state)) \<and> shape ex_X = [2, 2] \<and>
   snd (loop_body ex_X None ex_state) = snd (loop_body ex_X (Some (zeros 2 3)) ex_state) \<and>
   snd (loop_body ex_X (Some (zeros 2 3)) ex_state)
     = Inr (Mat 3 [[ftanh (Fin 1), ftanh (Fin 1), ftanh (Fin 1)],
                   [ftanh (Fin 1), ftanh (Fin 1), ftanh (Fin 1)]])"
proof -
  have "snd (loop_body ex_X None ex_state) = Inr (RecurrentCellStep (self ex_state) ex_X None)"
    using loop_body_ok[OF ex_ok ex_shapes(1), of None] by simp
  then have "snd (loop_body ex_X None ex_state)
     = Inr (Mat 3 [[ftanh (Fin 1), ftanh (Fin 1), ftanh (Fin 1)],
                   [ftanh (Fin 1), ftanh (Fin 1), ftanh (Fin 1)]])"
    by (simp add: ex_step_value ex_state_def)
  with C3_absent_is_zeros[OF ex_ok ex_finite ex_shapes(1)] ex_ok ex_finite ex_shapes(1)
  show ?thesis by simp
qed

text \<open>
  Claim C4. With no time step (\<open>T = 0\<close>) the driver returns an empty output sequence
  and hands the initial hidden state back unchanged: called without a state it returns
  \<^verbatim>\<open>None\<close>, the sentinel for "no state"; called with the one-element tuple that wraps
  a hidden state \<open>h\<close> it returns \<open>h\<close>. Nothing is logged and the object is untouched.
\<close>

theorem C4_empty_sequence:
  "RNNScratch_call [] PyNone \<sigma> = (\<sigma>, Inr ([], None)) \<and>
   RNNScratch_call [] (PyTuple [h]) \<sigma> = (\<sigma>, Inr ([], Some h))"
  by (simp add: RNNScratch_call_def return_exec_def)

text \<open>
  Claim C5. Whenever \<^verbatim>\<open>__call__\<close> returns for a sequence of \<open>T \<ge> 1\<close> inputs, the output
  list has exactly \<open>T\<close> states, the returned final state is its last element, and the
  states are in step order: the state at position \<open>t\<close> is what the loop body returns
  for input \<open>t\<close> and the state at position \<open>t - 1\<close> (the unpacked initial state for
  \<open>t = 0\<close>). And it does return: for an object with the shapes of \<^verbatim>\<open>__init__\<close>, inputs
  of shape (\<open>B\<close>, input_dim) and an initial state that is absent or a one-element tuple
  wrapping a matrix of shape (\<open>B\<close>, hidden_dim), the call returns \<open>T\<close> states and the
  last of them as the final state.
\<close>

theorem C5_final_is_last:
  "(snd (RNNScratch_call inputs st \<sigma>) = Inr (outs, fin) \<and> inputs \<noteq> [] \<longrightarrow>
      check_len outs (length inputs) \<and> fin = Some (last outs) \<and>
      (\<exists>init. unpack_state st = Inr init \<and>
         (\<forall>t < length inputs.
            snd (loop_body (inputs ! t) (if t = 0 then init else Some (outs ! (t - 1))) \<sigma>)
              = Inr (outs ! t)))) \<and>
   (module_ok n_in n_hid (self \<sigma>0) \<and> list_all (\<lambda>X. shape X = [B, n_in]) inputs0 \<and>
    inputs0 \<noteq> [] \<and> (st0 = PyNone \<or> st0 = PyTuple [h0] \<and> shape h0 = [B, n_hid]) \<longrightarrow>
      (\<exists>outs0 fin0. snd (RNNScratch_call inputs0 st0 \<sigma>0) = Inr (outs0, Some fin0) \<and>
         check_len outs0 (length inputs0) \<and> fin0 = last outs0))"
proof -
  have 1: "check_len outs (length inputs) \<and> fin = Some (last outs) \<and>
      (\<exists>init. unpack_state st = Inr init \<and>
         (\<forall>t < length inputs.
            snd (loop_body (inputs ! t) (if t = 0 then init else Some (outs ! (t - 1))) \<sigma>)
              = Inr (outs ! t)))"
    if run: "snd (RNNScratch_call inputs st \<sigma>) = Inr (outs, fin)" and ne: "inputs \<noteq> []"
  proof -
    from call_result[OF run] obtain init where
      u: "unpack_state st = Inr init" and len: "length outs = length inputs"
      and fin: "fin = (if inputs = [] then init else Some (last outs))"
      and steps: "\<forall>t < length inputs.
          snd (loop_body (inputs ! t) (if t = 0 then init else Some (outs ! (t - 1))) \<sigma>)
            = Inr (outs ! t)"
      by blast
    from u steps have "\<exists>init. unpack_state st = Inr init \<and>
         (\<forall>t < length inputs.
            snd (loop_body (inputs ! t) (if t = 0 then init else Some (outs ! (t - 1))) \<sigma>)
              = Inr (outs ! t))"
      by blast
    with len fin ne show ?thesis
      by (simp add: check_len_def)
  qed
  have 2: "\<exists>outs0 fin0. snd (RNNScratch_call inputs0 st0 \<sigma>0) = Inr (outs0, Some fin0) \<and>
         check_len outs0 (length inputs0) \<and> fin0 = last outs0"
    if m: "module_ok n_in n_hid (self \<sigma>0)"
      and i: "list_all (\<lambda>X. shape X = [B, n_in]) inputs0" and ne: "inputs0 \<noteq> []"
      and st: "st0 = PyNone \<or> st0 = PyTuple [h0] \<and> shape h0 = [B, n_hid]"
  proof -
    obtain init where
      i': "st0 = PyNone \<and> init = None \<or> st0 = PyTuple [h0] \<and> init = Some h0 \<and> shape h0 = [B, n_hid]"
      using st by auto
    let ?r = "SequenceDriver (self \<sigma>0) inputs0 init"
    have run: "snd (RNNScratch_call inputs0 st0 \<sigma>0) = Inr (fst ?r, snd ?r)"
      using call_ok[OF m i i'] by simp
    from call_result[OF run] ne have "snd ?r = Some (last (fst ?r))"
      and "length (fst ?r) = length inputs0"
      by auto
    with run show ?thesis
      by (intro exI[of _ "fst ?r"] exI[of _ "last (fst ?r)"]) (simp add: check_len_def)
  qed
  from 1 2 show ?thesis by blast
qed

theorem C5_witness:
  "module_ok 2 3 (self ex_state) \<and> list_all (\<lambda>X. shape X = [2, 2]) ex_inputs \<and>
   ex_inputs \<noteq> [] \<and>
   (\<exists>outs fin. snd (RNNScratch_call ex_inputs PyNone ex_state) = Inr (outs, Some fin) \<and>
      check_len outs (length ex_inputs) \<and> fin = last outs) \<and>
   snd (RNNScratch_call ex_inputs PyNone ex_state)
     = Inr (fst (SequenceDriver ex_rnn ex_inputs None), snd (SequenceDriver ex_rnn ex_inputs None)) \<and>
   check_len (fst (SequenceDriver ex_rnn ex_inputs None)) (length ex_inputs) \<and>
   snd (SequenceDriver ex_rnn ex_inputs None)
     = Some (last (fst (SequenceDriver ex_rnn ex_inputs None)))"
proof -
  have ne: "ex_inputs \<noteq> []" by (simp add: ex_inputs_def)
  have run: "snd (RNNScratch_call ex_inputs PyNone ex_state)
     = Inr (fst (SequenceDriver ex_rnn ex_inputs None), snd (SequenceDriver ex_rnn ex_inputs None))"
    using call_ok[OF ex_ok ex_shapes(4), of PyNone None] by (simp add: ex_state_def)
  note t = C5_final_is_last[of ex_inputs PyNone ex_state
      "fst (SequenceDriver ex_rnn ex_inputs None)" "snd (SequenceDriver ex_rnn ex_inputs None)"
      2 3 ex_state 2 ex_inputs PyNone]
  from t run ne
  have a: "check_len (fst (SequenceDriver ex_rnn ex_inputs None)) (length ex_inputs) \<and>
     snd (SequenceDriver ex_rnn ex_inputs None)
       = Some (last (fst (SequenceDriver ex_rnn ex_inputs None)))"
    by blast
  from t ex_ok ex_shapes(4) ne
  have b: "\<exists>outs fin. snd (RNNScratch_call ex_inputs PyNone ex_state) = Inr (outs, Some fin) \<and>
      check_len outs (length ex_inputs) \<and> fin = last outs"
    by blast
  from a b ne run ex_ok ex_shapes(4) show ?thesis
    by blast
qed

text \<open>
  Claim C6. For an object that satisfies the invariant of \<^verbatim>\<open>__init__\<close> (as every freshly
  constructed one does), an input of shape (\<open>B\<close>, input_dim) and a previous state of shape
  (\<open>B\<close>, hidden_dim) or none, the step returns a state of shape exactly
  (\<open>B\<close>, hidden_dim); the driver returns one state per input, each a well-formed matrix
  of shape (\<open>B\<close>, \<^verbatim>\<open>num_hiddens\<close>), as the notebook's \<^verbatim>\<open>check_len\<close> and \<^verbatim>\<open>check_shape\<close>
  assert; and after the step and after the whole call the invariant still holds:
  \<^verbatim>\<open>W_hh\<close> is hidden_dim by hidden_dim and \<^verbatim>\<open>b_h\<close> has hidden_dim entries.
\<close>

theorem C6_shape_invariant:
  assumes m: "module_ok n_in n_hid (self \<sigma>)"
    and x: "shape x = [B, n_in]"
    and prev: "prev_state = None \<or> (\<exists>h. prev_state = Some h \<and> shape h = [B, n_hid])"
    and inputs: "list_all (\<lambda>X. shape X = [B, n_in]) inputs"
    and st: "st = PyNone \<or> (\<exists>h. st = PyTuple [h] \<and> shape h = [B, n_hid])"
  shows "(\<exists>s. snd (loop_body x prev_state \<sigma>) = Inr s \<and> check_shape s [B, n_hid] \<and> valid s) \<and>
         module_ok n_in n_hid (self (fst (loop_body x prev_state \<sigma>))) \<and>
         (\<exists>outs fin. snd (RNNScratch_call inputs st \<sigma>) = Inr (outs, fin) \<and>
            check_len outs (length inputs) \<and>
            list_all (\<lambda>s. check_shape s [B, num_hiddens (self \<sigma>)] \<and> valid s) outs) \<and>
         module_ok n_in n_hid (self (fst (RNNScratch_call inputs st \<sigma>))) \<and>
         module_ok n_in n_hid (RNNScratch_init n_in n_hid wxh whh)"
proof -
  have nh: "num_hiddens (self \<sigma>) = n_hid" using m by (simp add: module_ok_def)
  have p: "\<And>h. prev_state = Some h \<Longrightarrow> shape h = [B, n_hid]"
    using prev by auto
  have "snd (loop_body x prev_state \<sigma>) = Inr (RecurrentCellStep (self \<sigma>) x prev_state)"
    using loop_body_ok[OF m x p] by simp
  moreover have "shape (RecurrentCellStep (self \<sigma>) x prev_state) = [B, n_hid]"
    using dims_shape2[OF x] nh by (simp add: shape_RecurrentCellStep)
  ultimately have step: "\<exists>s. snd (loop_body x prev_state \<sigma>) = Inr s \<and>
      check_shape s [B, n_hid] \<and> valid s"
    by (simp add: check_shape_def valid_RecurrentCellStep)
  obtain init where
    i: "st = PyNone \<and> init = None \<or> (\<exists>h. st = PyTuple [h] \<and> init = Some h \<and> shape h = [B, n_hid])"
    using st by auto
  then obtain h where
    i': "st = PyNone \<and> init = None \<or> st = PyTuple [h] \<and> init = Some h \<and> shape h = [B, n_hid]"
    by auto
  have run: "snd (RNNScratch_call inputs st \<sigma>) = Inr (SequenceDriver (self \<sigma>) inputs init)"
    by (rule call_ok[OF m inputs i'])
  have "list_all (\<lambda>s. shape s = [B, n_hid] \<and> valid s) (fst (SequenceDriver (self \<sigma>) inputs init)) \<and>
      length (fst (SequenceDriver (self \<sigma>) inputs init)) = length [] + length inputs"
    using driver_outputs[OF nh inputs, of "[]" init] by (simp add: SequenceDriver_def)
  with run nh have drv: "\<exists>outs fin. snd (RNNScratch_call inputs st \<sigma>) = Inr (outs, fin) \<and>
            check_len outs (length inputs) \<and>
            list_all (\<lambda>s. check_shape s [B, num_hiddens (self \<sigma>)] \<and> valid s) outs"
    by (intro exI[of _ "fst (SequenceDriver (self \<sigma>) inputs init)"]
        exI[of _ "snd (SequenceDriver (self \<sigma>) inputs init)"])
      (simp add: check_len_def check_shape_def)
  from step drv m show ?thesis
    by (simp add: loop_body_self call_self init_ok)
qed

theorem C6_witness:
  "module_ok 2 3 (self ex_state) \<and> shape ex_X = [2, 2] \<and> shape ex_h = [2, 3] \<and>
   list_all (\<lambda>X. shape X = [2, 2]) ex_inputs \<and>
   (\<exists>s. snd (loop_body ex_X (Some ex_h) ex_state) = Inr s \<and> check_shape s [2, 3] \<and> valid s) \<and>
   (\<exists>outs fin. snd (RNNScratch_call ex_inputs (PyTuple [ex_h]) ex_state) = Inr (outs, fin) \<and>
      check_len outs (length ex_inputs) \<and>
      list_all (\<lambda>s. check_shape s [2, num_hiddens (self ex_state)] \<and> valid s) outs) \<and>
   module_ok 2 3 (self (fst (RNNScratch_call ex_inputs (PyTuple [ex_h]) ex_state)))"
  using C6_shape_invariant[OF ex_ok ex_shapes(1) _ ex_shapes(4), of "Some ex_h" "PyTuple [ex_h]"]
    ex_ok ex_shapes
  by simp

text \<open>
  Claim C7. A second call with the same inputs, run on the state the first call left
  behind, returns the same result as the first; and the result of the driver and of the
  step depends on the execution state only through the three parameter tensors: two
  states that agree on \<^verbatim>\<open>W_xh\<close>, \<^verbatim>\<open>W_hh\<close> and \<^verbatim>\<open>b_h\<close> give equal results, whatever
  else differs between them.
\<close>

theorem C7_deterministic:
  "snd (RNNScratch_call inputs st (fst (RNNScratch_call inputs st \<sigma>)))
     = snd (RNNScratch_call inputs st \<sigma>) \<and>
   (W_xh (self \<sigma>') = W_xh (self \<sigma>) \<and> W_hh (self \<sigma>') = W_hh (self \<sigma>) \<and>
    b_h (self \<sigma>') = b_h (self \<sigma>) \<longrightarrow>
      snd (RNNScratch_call inputs st \<sigma>') = snd (RNNScratch_call inputs st \<sigma>) \<and>
      snd (loop_body x prev_state \<sigma>') = snd (loop_body x prev_state \<sigma>))"
proof -
  have "snd (RNNScratch_call inputs st (fst (RNNScratch_call inputs st \<sigma>)))
     = snd (RNNScratch_call inputs st \<sigma>)"
    by (rule call_params) (simp_all add: call_self)
  then show ?thesis
    by (auto intro: call_params loop_body_params)
qed

text \<open>Two states that differ in \<^verbatim>\<open>num_hiddens\<close> and in their history.\<close>

theorem C7_witness:
  "W_xh (self ex_state') = W_xh (self ex_state) \<and> W_hh (self ex_state') = W_hh (self ex_state) \<and>
   b_h (self ex_state') = b_h (self ex_state) \<and> ex_state' \<noteq> ex_state \<and>
   snd (RNNScratch_call ex_inputs PyNone ex_state') = snd (RNNScratch_call ex_inputs PyNone ex_state) \<and>
   snd (loop_body ex_X None ex_state') = snd (loop_body ex_X None ex_state)"
  using C7_deterministic[of ex_inputs PyNone ex_state ex_state' ex_X None]
  by (simp add: ex_state'_def ex_state_def)

text \<open>
  Claim C8. After any call of \<^verbatim>\<open>__call__\<close>, whether it returns or raises, the three
  parameters \<^verbatim>\<open>W_xh\<close>, \<^verbatim>\<open>W_hh\<close> and \<^verbatim>\<open>b_h\<close> are what they were before the call, and
  so is the whole object.
\<close>

theorem C8_parameters_unchanged:
  "W_xh (self (fst (RNNScratch_call inputs st \<sigma>))) = W_xh (self \<sigma>) \<and>
   W_hh (self (fst (RNNScratch_call inputs st \<sigma>))) = W_hh (self \<sigma>) \<and>
   b_h (self (fst (RNNScratch_call inputs st \<sigma>))) = b_h (self \<sigma>) \<and>
   self (fst (RNNScratch_call inputs st \<sigma>)) = self \<sigma>"
  by (simp add: RNNScratch_call_def call_loop_self split: sum.splits)




text \<open>
  Claim C10. The driver takes its initial state wrapped and returns its final state
  bare. Every argument other than \<^verbatim>\<open>None\<close> whose length is not one makes the unpacking
  \<^verbatim>\<open>state, = state\<close> fail before the loop starts; a one-element tuple is unwrapped and
  the recurrence starts from its element. The state that a run with batch size
  \<open>B \<noteq> 1\<close> returns is a bare matrix of \<open>B\<close> rows: fed back as it is, it fails in
  the unpacking; wrapped in a tuple, it is accepted.
\<close>

theorem C10_state_format:
  "(st \<noteq> PyNone \<and> py_len st \<noteq> Some 1 \<longrightarrow>
      RNNScratch_call inputs st \<sigma> = (\<sigma>, Inl UnpackError)) \<and>
   RNNScratch_call inputs (PyTuple [h]) \<sigma> = call_loop inputs [] (Some h) \<sigma> \<and>
   (module_ok n_in n_hid (self \<sigma>0) \<and> list_all (\<lambda>X. shape X = [B, n_in]) inputs0 \<and>
    inputs0 \<noteq> [] \<and> B \<noteq> 1 \<longrightarrow>
      (\<exists>outs fin. snd (RNNScratch_call inputs0 PyNone \<sigma>0) = Inr (outs, Some fin) \<and>
         RNNScratch_call inputs (PyArray fin) \<sigma> = (\<sigma>, Inl UnpackError) \<and>
         RNNScratch_call inputs (PyTuple [fin]) \<sigma> = call_loop inputs [] (Some fin) \<sigma>))"
proof -
  have 1: "st \<noteq> PyNone \<and> py_len st \<noteq> Some 1 \<longrightarrow>
      RNNScratch_call inputs st \<sigma> = (\<sigma>, Inl UnpackError)"
    using unpack_fails[of st] by (simp add: RNNScratch_call_def)
  have 3: "\<exists>outs fin. snd (RNNScratch_call inputs0 PyNone \<sigma>0) = Inr (outs, Some fin) \<and>
         RNNScratch_call inputs (PyArray fin) \<sigma> = (\<sigma>, Inl UnpackError) \<and>
         RNNScratch_call inputs (PyTuple [fin]) \<sigma> = call_loop inputs [] (Some fin) \<sigma>"
    if m: "module_ok n_in n_hid (self \<sigma>0)"
      and i: "list_all (\<lambda>X. shape X = [B, n_in]) inputs0" and ne: "inputs0 \<noteq> []" and B: "B \<noteq> 1"
  proof -
    from returned_state[OF m i ne] obtain outs fin where
      run: "snd (RNNScratch_call inputs0 PyNone \<sigma>0) = Inr (outs, Some fin)"
      and sh: "shape fin = [B, n_hid]"
      by blast
    from sh B have "py_len (PyArray fin) \<noteq> Some 1" by (auto simp: shape2_iff)
    then have "unpack_state (PyArray fin) = Inl UnpackError"
      by (intro unpack_fails) simp_all
    with run show ?thesis by (auto simp: RNNScratch_call_def)
  qed
  from 1 3 show ?thesis by (simp add: RNNScratch_call_def)
qed

theorem C10_witness:
  "PyArray ex_h \<noteq> PyNone \<and> py_len (PyArray ex_h) \<noteq> Some 1 \<and>
   RNNScratch_call ex_inputs (PyArray ex_h) ex_state = (ex_state, Inl UnpackError) \<and>
   module_ok 2 3 (self ex_state) \<and> list_all (\<lambda>X. shape X = [2, 2]) ex_inputs \<and>
   ex_inputs \<noteq> [] \<and> (2::nat) \<noteq> 1 \<and>
   (\<exists>outs fin. snd (RNNScratch_call ex_inputs PyNone ex_state) = Inr (outs, Some fin) \<and>
      RNNScratch_call ex_inputs (PyArray fin) ex_state = (ex_state, Inl UnpackError))"
proof -
  have a: "PyArray ex_h \<noteq> PyNone \<and> py_len (PyArray ex_h) \<noteq> Some 1"
    by (simp add: ex_h_def)
  have b: "module_ok 2 3 (self ex_state) \<and> list_all (\<lambda>X. shape X = [2, 2]) ex_inputs \<and>
    ex_inputs \<noteq> [] \<and> (2::nat) \<noteq> 1"
    using ex_ok ex_shapes(4) by (simp add: ex_inputs_def)
  from C10_state_format[of "PyArray ex_h" ex_inputs ex_state _ 2 3 ex_state 2 ex_inputs] a b
  show ?thesis by blast
qed

end
